theory Spec2Isabelle
  imports Main "HOL-Library.AList"
begin

section \<open>JSON values and Python dictionaries\<close>

text \<open>
  The store handles JSON documents as Python values: \<open>None\<close>, booleans, integers,
  strings, lists and dicts. A dict is an association list (insertion order kept); every
  operation below reads it through \<open>map_of\<close>, so the first binding of a key is the one
  that counts, and a dict built by the operations below from one with distinct keys has
  distinct keys. JSON numbers with a fractional part are outside the model.
\<close>

datatype json =
    JNull
  | JBool bool
  | JInt int
  | JStr string
  | JList "json list"
  | JObj "(string \<times> json) list"

type_synonym pydict = "(string \<times> json) list"

datatype py_error = AttributeError | TypeError

text \<open>Python truth value of a JSON value (\<open>if obj:\<close>, \<open>not obj\<close>).\<close>

fun truthy :: "json \<Rightarrow> bool" where
  "truthy JNull = False"
| "truthy (JBool b) = b"
| "truthy (JInt n) = (n \<noteq> 0)"
| "truthy (JStr s) = (s \<noteq> [])"
| "truthy (JList xs) = (xs \<noteq> [])"
| "truthy (JObj d) = (d \<noteq> [])"

text \<open>
  Python's \<open>==\<close> on JSON values: a boolean equals the integer 0 or 1 it stands for, lists
  are compared element by element, dicts have the same number of keys and every key of
  the left one is bound to an equal value in the right one.
\<close>

fun py_eq :: "json \<Rightarrow> json \<Rightarrow> bool"
  and py_eq_list :: "json list \<Rightarrow> json list \<Rightarrow> bool"
  and py_eq_items :: "pydict \<Rightarrow> pydict \<Rightarrow> bool" where
  "py_eq JNull b = (case b of JNull \<Rightarrow> True | _ \<Rightarrow> False)"
| "py_eq (JBool x) b =
     (case b of JBool y \<Rightarrow> x = y | JInt n \<Rightarrow> (if x then 1 else 0) = n | _ \<Rightarrow> False)"
| "py_eq (JInt m) b =
     (case b of JInt n \<Rightarrow> m = n | JBool y \<Rightarrow> m = (if y then 1 else 0) | _ \<Rightarrow> False)"
| "py_eq (JStr s) b = (case b of JStr t \<Rightarrow> s = t | _ \<Rightarrow> False)"
| "py_eq (JList xs) b = (case b of JList ys \<Rightarrow> py_eq_list xs ys | _ \<Rightarrow> False)"
| "py_eq (JObj d) b =
     (case b of JObj e \<Rightarrow> length d = length e \<and> py_eq_items d e | _ \<Rightarrow> False)"
| "py_eq_list [] ys = (ys = [])"
| "py_eq_list (x # xs) ys =
     (case ys of [] \<Rightarrow> False | y # ys' \<Rightarrow> py_eq x y \<and> py_eq_list xs ys')"
| "py_eq_items [] e = True"
| "py_eq_items ((k, v) # d) e =
     ((case map_of e k of None \<Rightarrow> False | Some w \<Rightarrow> py_eq v w) \<and> py_eq_items d e)"

text \<open>\<open>d.get(k)\<close>, \<open>d.get(k, default)\<close>, \<open>k in d\<close>, \<open>d[k] = v\<close>, \<open>d.pop(k, None)\<close> and
  \<open>d.update(other)\<close> of a Python dict.\<close>

definition dict_get :: "pydict \<Rightarrow> string \<Rightarrow> json option" where
  "dict_get d k = map_of d k"

definition dict_get_default :: "pydict \<Rightarrow> string \<Rightarrow> json \<Rightarrow> json" where
  "dict_get_default d k dflt = (case map_of d k of None \<Rightarrow> dflt | Some v \<Rightarrow> v)"

definition dict_contains :: "string \<Rightarrow> pydict \<Rightarrow> bool" where
  "dict_contains k d = (map_of d k \<noteq> None)"

definition dict_setitem :: "string \<Rightarrow> json \<Rightarrow> pydict \<Rightarrow> pydict" where
  "dict_setitem k v d = AList.update k v d"

definition dict_update :: "pydict \<Rightarrow> pydict \<Rightarrow> pydict" where
  "dict_update d other = fold (\<lambda>(k, v). dict_setitem k v) other d"

text \<open>
  \<open>obj.pop(field, None)\<close> on a JSON value: a dict drops the key (no error when it is
  missing), a list rejects the second argument, anything else has no \<open>pop\<close>.
\<close>

fun pop :: "string \<Rightarrow> json \<Rightarrow> py_error + json" where
  "pop field (JObj d) = Inr (JObj (AList.delete field d))"
| "pop field (JList xs) = Inl TypeError"
| "pop field obj = Inl AttributeError"

section \<open>Request context and collaborators\<close>

record consumer =
  key :: string

record user =
  id' :: string
  consumer :: consumer

text \<open>
  Flask's \<open>g\<close> after \<open>before_request\<close> has run: the caller (\<open>None\<close> for an anonymous
  request), the authorization function, and the two optional hooks (\<open>None\<close> when
  \<open>hasattr\<close> is false). A hook mutates the annotation it is given; it is a function to
  the mutated annotation.
\<close>

record flask_g =
  user :: "user option"
  authorize :: "pydict \<Rightarrow> string \<Rightarrow> user option \<Rightarrow> bool"
  after_annotation_create :: "(pydict \<Rightarrow> pydict) option"
  before_annotation_update :: "(pydict \<Rightarrow> pydict) option"

text \<open>
  The request: the parsed JSON body (\<open>request.json\<close>, \<open>None\<close> when there is none) and
  the query parameters (\<open>request.args.items()\<close>).
\<close>

record request =
  json :: "json option"
  args :: "(string \<times> string) list"

text \<open>
  The class \<open>Annotation\<close> comes from \<open>annotator.annotation\<close>, which is not part of this
  module: its storage operations are parameters, over a storage state \<open>'s\<close>. \<open>save\<close>
  returns the annotation as the storage layer left it (id and timestamps assigned).
\<close>

record 's annotation_store =
  fetch :: "string \<Rightarrow> 's \<Rightarrow> pydict option"
  save :: "pydict \<Rightarrow> 's \<Rightarrow> pydict \<times> 's"
  delete :: "pydict \<Rightarrow> 's \<Rightarrow> 's"
  search :: "pydict \<Rightarrow> 's \<Rightarrow> pydict list"
  count :: "pydict \<Rightarrow> 's \<Rightarrow> int"

text \<open>Every call a handler makes to a collaborator is recorded, in order.\<close>

datatype call =
    Fetch string
  | Authorize pydict string "user option"
  | Save pydict
  | Delete pydict
  | Search pydict
  | Count pydict
  | AfterCreate pydict
  | BeforeUpdate pydict

record 's world =
  storage :: 's
  calls :: "call list"

definition record_call :: "call \<Rightarrow> 's world \<Rightarrow> 's world" where
  "record_call c w = w\<lparr>calls := calls w @ [c]\<rparr>"

definition do_fetch :: "'s annotation_store \<Rightarrow> string \<Rightarrow> 's world \<Rightarrow> pydict option \<times> 's world" where
  "do_fetch A i w = (fetch A i (storage w), record_call (Fetch i) w)"

definition do_save :: "'s annotation_store \<Rightarrow> pydict \<Rightarrow> 's world \<Rightarrow> pydict \<times> 's world" where
  "do_save A ann w =
     (let (ann', s') = save A ann (storage w)
      in (ann', (record_call (Save ann) w)\<lparr>storage := s'\<rparr>))"

definition do_delete :: "'s annotation_store \<Rightarrow> pydict \<Rightarrow> 's world \<Rightarrow> 's world" where
  "do_delete A ann w = (record_call (Delete ann) w)\<lparr>storage := delete A ann (storage w)\<rparr>"

definition do_search :: "'s annotation_store \<Rightarrow> pydict \<Rightarrow> 's world \<Rightarrow> pydict list \<times> 's world" where
  "do_search A kwargs w = (search A kwargs (storage w), record_call (Search kwargs) w)"

definition do_count :: "'s annotation_store \<Rightarrow> pydict \<Rightarrow> 's world \<Rightarrow> int \<times> 's world" where
  "do_count A kwargs w = (count A kwargs (storage w), record_call (Count kwargs) w)"

section \<open>Responses\<close>

text \<open>
  A response is its status and its body; \<open>jsonify\<close> serialises a JSON value, and the
  body is kept as that value. \<open>delete_annotation\<close> answers with no body.
\<close>

record response =
  status :: nat
  body :: "json option"

definition jsonify :: "json \<Rightarrow> nat \<Rightarrow> response" where
  "jsonify obj st = \<lparr>status = st, body = Some obj\<rparr>"

definition CREATE_FILTER_FIELDS :: "string list" where
  "CREATE_FILTER_FIELDS = [''updated'', ''created'', ''consumer'']"

definition UPDATE_FILTER_FIELDS :: "string list" where
  "UPDATE_FILTER_FIELDS = [''updated'', ''created'', ''user'', ''consumer'']"

section \<open>Helper functions of the module\<close>

fun filter_input :: "json \<Rightarrow> string list \<Rightarrow> py_error + json" where
  "filter_input obj [] = Inr obj"
| "filter_input obj (field # rest) =
     (case pop field obj of Inl e \<Rightarrow> Inl e | Inr obj' \<Rightarrow> filter_input obj' rest)"

text \<open>
  \<open>_get_annotation_user\<close>: \<open>None\<close> for a missing or falsy user, the \<open>id\<close> of a dict
  (\<open>None\<close> when it has none), and the value itself when it has no \<open>get\<close>.
\<close>

definition get_annotation_user :: "pydict \<Rightarrow> json" where
  "get_annotation_user ann =
     (let user = dict_get_default ann ''user'' JNull
      in if \<not> truthy user then JNull
         else (case user of JObj d \<Rightarrow> dict_get_default d ''id'' JNull | _ \<Rightarrow> user))"

text \<open>
  \<open>_failed_authz_response\<close>. A user object is truthy; \<open>str(None)\<close> is \<open>None\<close>; a user id
  and a consumer key are strings.
\<close>

definition failed_authz_response :: "flask_g \<Rightarrow> string \<Rightarrow> response" where
  "failed_authz_response g msg =
     (let user_s = (case user g of Some u \<Rightarrow> id' u | None \<Rightarrow> ''None'');
          consumer_s = (case user g of Some u \<Rightarrow> key (consumer u) | None \<Rightarrow> ''None'')
      in jsonify (JStr (''Cannot authorize request''
                        @ (if msg \<noteq> [] then '' ('' @ msg @ '')'' else [])
                        @ ''. Perhaps you're not logged in as ''
                        @ ''a user with appropriate permissions on this annotation? ''
                        @ ''(user='' @ user_s @ '', consumer='' @ consumer_s @ '')'')) 401)"

definition check_action ::
  "flask_g \<Rightarrow> pydict \<Rightarrow> string \<Rightarrow> string \<Rightarrow> 's world \<Rightarrow> response option \<times> 's world" where
  "check_action g annotation action message w =
     (let w' = record_call (Authorize annotation action (user g)) w
      in if \<not> authorize g annotation action (user g)
         then (Some (failed_authz_response g message), w')
         else (None, w'))"

text \<open>
  \<open>int\<close> is Python's built-in, not code of this module, and which strings it accepts
  depends on the interpreter (digit separators, non-ASCII digits and spaces, a limit on
  the length). On a string it returns an integer or raises \<open>ValueError\<close>: it is the
  parameter \<open>int_str\<close>, with \<open>None\<close> for \<open>ValueError\<close>.

  \<open>_quiet_int\<close> catches \<open>ValueError\<close> only: \<open>int\<close> of \<open>None\<close>, a list or a dict raises
  \<open>TypeError\<close>, which is not caught.
\<close>

fun quiet_int :: "(string \<Rightarrow> int option) \<Rightarrow> json \<Rightarrow> int \<Rightarrow> py_error + int" where
  "quiet_int int_str (JStr s) dflt = Inr (case int_str s of Some n \<Rightarrow> n | None \<Rightarrow> dflt)"
| "quiet_int int_str (JInt n) dflt = Inr n"
| "quiet_int int_str (JBool b) dflt = Inr (if b then 1 else 0)"
| "quiet_int int_str obj dflt = Inl TypeError"

section \<open>Route handlers\<close>

text \<open>
  A handler takes the storage operations, the request context, the request and the
  world, and returns the response (or the exception that escapes it) with the new world.
\<close>

definition root :: "response" where
  "root = jsonify (JStr ''Annotator Store API'') 200"

definition index :: "'s annotation_store \<Rightarrow> 's world \<Rightarrow> response \<times> 's world" where
  "index A w =
     (let (annotations, w1) = do_search A [] w
      in (jsonify (JList (map JObj annotations)) 200, w1))"

definition create_annotation ::
  "'s annotation_store \<Rightarrow> flask_g \<Rightarrow> request \<Rightarrow> 's world \<Rightarrow> (py_error + response) \<times> 's world" where
  "create_annotation A g req w =
     (case user g of
        None \<Rightarrow> (Inr (failed_authz_response g ''create annotation''), w)
      | Some u \<Rightarrow>
          if (case json req of None \<Rightarrow> False | Some j \<Rightarrow> truthy j) then
            (case filter_input (the (json req)) CREATE_FILTER_FIELDS of
               Inl e \<Rightarrow> (Inl e, w)
             | Inr (JObj d) \<Rightarrow>
                 (let annotation = dict_setitem ''consumer'' (JStr (key (consumer u))) d;
                      annotation = (if \<not> py_eq (get_annotation_user annotation) (JStr (id' u))
                                    then dict_setitem ''user'' (JStr (id' u)) annotation
                                    else annotation);
                      (annotation, w1) = do_save A annotation w;
                      (annotation, w2) =
                        (case after_annotation_create g of
                           None \<Rightarrow> (annotation, w1)
                         | Some hook \<Rightarrow>
                             do_save A (hook annotation) (record_call (AfterCreate annotation) w1))
                  in (Inr (jsonify (JObj annotation) 200), w2))
             | Inr _ \<Rightarrow> (Inl TypeError, w))
          else (Inr (jsonify (JStr ''No JSON payload sent. Annotation not created.'') 400), w))"

definition read_annotation ::
  "'s annotation_store \<Rightarrow> flask_g \<Rightarrow> string \<Rightarrow> 's world \<Rightarrow> response \<times> 's world" where
  "read_annotation A g i w =
     (let (found, w1) = do_fetch A i w
      in case found of
           None \<Rightarrow> (jsonify (JStr ''Annotation not found!'') 404, w1)
         | Some annotation \<Rightarrow>
             if annotation = [] then (jsonify (JStr ''Annotation not found!'') 404, w1)
             else (case check_action g annotation ''read'' [] w1 of
                     (Some failure, w2) \<Rightarrow> (failure, w2)
                   | (None, w2) \<Rightarrow> (jsonify (JObj annotation) 200, w2)))"

definition update_annotation ::
  "'s annotation_store \<Rightarrow> flask_g \<Rightarrow> request \<Rightarrow> string \<Rightarrow> 's world
     \<Rightarrow> (py_error + response) \<times> 's world" where
  "update_annotation A g req i w =
     (let (found, w1) = do_fetch A i w
      in case found of
           None \<Rightarrow> (Inr (jsonify (JStr ''Annotation not found! No update performed.'') 404), w1)
         | Some annotation \<Rightarrow>
             if annotation = []
             then (Inr (jsonify (JStr ''Annotation not found! No update performed.'') 404), w1)
             else (case check_action g annotation ''update'' [] w1 of
                     (Some failure, w2) \<Rightarrow> (Inr failure, w2)
                   | (None, w2) \<Rightarrow>
                       if (case json req of None \<Rightarrow> False | Some j \<Rightarrow> truthy j) then
                         (case filter_input (the (json req)) UPDATE_FILTER_FIELDS of
                            Inl e \<Rightarrow> (Inl e, w2)
                          | Inr (JObj d) \<Rightarrow>
                              (let updated = dict_setitem ''id'' (JStr i) d;
                                   (failure, w3) =
                                     (if dict_contains ''permissions'' updated
                                         \<and> \<not> py_eq (the (dict_get updated ''permissions''))
                                                 (dict_get_default annotation ''permissions'' (JObj []))
                                      then check_action g annotation ''admin'' ''permissions update'' w2
                                      else (None, w2))
                               in case failure of
                                    Some f \<Rightarrow> (Inr f, w3)
                                  | None \<Rightarrow>
                                      (let annotation = dict_update annotation updated;
                                           (annotation, w4) =
                                             (case before_annotation_update g of
                                                None \<Rightarrow> (annotation, w3)
                                              | Some hook \<Rightarrow>
                                                  (hook annotation,
                                                   record_call (BeforeUpdate annotation) w3));
                                           (annotation, w5) = do_save A annotation w4
                                       in (Inr (jsonify (JObj annotation) 200), w5)))
                          | Inr _ \<Rightarrow> (Inl TypeError, w2))
                       else (Inr (jsonify (JObj annotation) 200), w2)))"

definition delete_annotation ::
  "'s annotation_store \<Rightarrow> flask_g \<Rightarrow> string \<Rightarrow> 's world \<Rightarrow> response \<times> 's world" where
  "delete_annotation A g i w =
     (let (found, w1) = do_fetch A i w
      in case found of
           None \<Rightarrow> (jsonify (JStr ''Annotation not found. No delete performed.'') 404, w1)
         | Some annotation \<Rightarrow>
             if annotation = []
             then (jsonify (JStr ''Annotation not found. No delete performed.'') 404, w1)
             else (case check_action g annotation ''delete'' [] w1 of
                     (Some failure, w2) \<Rightarrow> (failure, w2)
                   | (None, w2) \<Rightarrow> (\<lparr>status = 204, body = None\<rparr>, do_delete A annotation w2)))"

text \<open>\<open>dict(request.args.items())\<close>: the values are strings.\<close>

definition dict_of_items :: "(string \<times> string) list \<Rightarrow> pydict" where
  "dict_of_items items = dict_update [] (map (\<lambda>(k, v). (k, JStr v)) items)"

definition search_annotations ::
  "(string \<Rightarrow> int option) \<Rightarrow> 's annotation_store \<Rightarrow> request \<Rightarrow> 's world
     \<Rightarrow> (py_error + response) \<times> 's world" where
  "search_annotations int_str A req w =
     (let kwargs = dict_of_items (args req)
      in case (if dict_contains ''offset'' kwargs
               then map_sum id (\<lambda>n. dict_setitem ''offset'' (JInt n) kwargs)
                      (quiet_int int_str (the (dict_get kwargs ''offset'')) 0)
               else Inr kwargs) of
           Inl e \<Rightarrow> (Inl e, w)
         | Inr kwargs \<Rightarrow>
             (case (if dict_contains ''limit'' kwargs
                    then map_sum id (\<lambda>n. dict_setitem ''limit'' (JInt n) kwargs)
                           (quiet_int int_str (the (dict_get kwargs ''limit'')) 20)
                    else Inr kwargs) of
                Inl e \<Rightarrow> (Inl e, w)
              | Inr kwargs \<Rightarrow>
                  (let (results, w1) = do_search A kwargs w;
                       (total, w2) = do_count A kwargs w1
                   in (Inr (jsonify (JObj [(''total'', JInt total),
                                           (''rows'', JList (map JObj results))]) 200), w2))))"

section \<open>Reading a message\<close>

text \<open>A message names a word when the word occurs in it.\<close>

fun mentions :: "string \<Rightarrow> string \<Rightarrow> bool" where
  "mentions word [] = (word = [])"
| "mentions word (c # cs) = (take (length word) (c # cs) = word \<or> mentions word cs)"

section \<open>Sample collaborators\<close>

text \<open>
  An in-memory storage (a list of annotations, found by their \<open>id\<close>), a caller and a
  request context whose authorization function allows the listed actions. The general
  theorems below are instantiated at them.
\<close>

definition sample_store :: "pydict list annotation_store" where
  "sample_store =
     \<lparr>fetch = (\<lambda>i s. find (\<lambda>a. map_of a ''id'' = Some (JStr i)) s),
      save = (\<lambda>a s. (a, a # filter (\<lambda>b. map_of b ''id'' \<noteq> map_of a ''id'') s)),
      delete = (\<lambda>a s. removeAll a s),
      search = (\<lambda>kwargs s. s),
      count = (\<lambda>kwargs s. int (length s))\<rparr>"

text \<open>
  One instance of \<open>int_str\<close>: it reads a non-empty string of ASCII digits and rejects
  every other string. It stands for \<open>int\<close> only at the strings of the concrete requests
  below (\<open>5\<close>, \<open>20\<close>, \<open>abc\<close>, \<open>x\<close>), where Python's \<open>int\<close> gives the same.
\<close>

definition digit_val :: "char \<Rightarrow> nat option" where
  "digit_val c =
     (let n = of_char c :: nat in if 48 \<le> n \<and> n \<le> 57 then Some (n - 48) else None)"

fun digits_val :: "nat \<Rightarrow> string \<Rightarrow> nat option" where
  "digits_val acc [] = Some acc"
| "digits_val acc (c # cs) =
     (case digit_val c of None \<Rightarrow> None | Some d \<Rightarrow> digits_val (10 * acc + d) cs)"

definition sample_int :: "string \<Rightarrow> int option" where
  "sample_int s = (if s = [] then None else map_option int (digits_val 0 s))"

definition sample_user :: user where
  "sample_user = \<lparr>id' = ''alice'', consumer = \<lparr>key = ''c1''\<rparr>\<rparr>"

definition sample_g :: "user option \<Rightarrow> string list \<Rightarrow> flask_g" where
  "sample_g u allowed =
     \<lparr>user = u, authorize = (\<lambda>ann action usr. action \<in> set allowed),
      after_annotation_create = None, before_annotation_update = None\<rparr>"

definition sample_annotation :: pydict where
  "sample_annotation =
     [(''id'', JStr ''1''), (''text'', JStr ''hi''), (''user'', JStr ''alice''),
      (''permissions'', JObj [(''read'', JList [])])]"

definition sample_world :: "pydict list world" where
  "sample_world = \<lparr>storage = [sample_annotation], calls = []\<rparr>"

section \<open>Facts about the helpers\<close>


lemma filter_input_update:
  "filter_input (JObj d) UPDATE_FILTER_FIELDS =
     Inr (JObj (AList.delete ''consumer'' (AList.delete ''user''
            (AList.delete ''created'' (AList.delete ''updated'' d)))))"
  by (simp add: UPDATE_FILTER_FIELDS_def)

lemma status_failed_authz_response: "status (failed_authz_response g msg) = 401"
  by (simp add: failed_authz_response_def jsonify_def Let_def)

lemma map_of_dict_update:
  "distinct (map fst u) \<Longrightarrow>
   map_of (dict_update a u) k = (case map_of u k of Some v \<Rightarrow> Some v | None \<Rightarrow> map_of a k)"
proof (induction u arbitrary: a)
  case Nil
  then show ?case by (simp add: dict_update_def)
next
  case (Cons x u)
  obtain k1 v1 where x: "x = (k1, v1)" by (cases x)
  from Cons.prems x have d: "distinct (map fst u)" and nk: "k1 \<notin> fst ` set u" by auto
  have step: "dict_update a ((k1, v1) # u) = dict_update (AList.update k1 v1 a) u"
    by (simp add: dict_update_def dict_setitem_def)
  from nk have none: "map_of u k1 = None" by (simp add: map_of_eq_None_iff)
  show ?case
    using Cons.IH [OF d, of "AList.update k1 v1 a"] none
    by (auto simp add: step x AList.update_conv' split: option.splits)
qed



lemma fetch_sample: "fetch sample_store ''1'' (storage sample_world) = Some sample_annotation"
  by (simp add: sample_store_def sample_world_def sample_annotation_def)

section \<open>Create\<close>

text \<open>
  C4. A create request of an anonymous caller (\<open>g.user\<close> is \<open>None\<close>) is answered with
  status 401, and the world is the one before the request: no collaborator was called,
  so nothing was saved, and the storage is unchanged.
\<close>

theorem create_annotation_anonymous:
  assumes "user g = None"
  shows "(case fst (create_annotation A g req w) of Inl e \<Rightarrow> False | Inr r \<Rightarrow> status r = 401)
         \<and> snd (create_annotation A g req w) = w"
  using assms by (simp add: create_annotation_def status_failed_authz_response)

theorem create_annotation_anonymous_witness:
  "(case fst (create_annotation sample_store (sample_g None [''read'', ''update'', ''delete'', ''admin''])
                \<lparr>json = Some (JObj [(''text'', JStr ''hi'')]), args = []\<rparr> sample_world)
    of Inl e \<Rightarrow> False | Inr r \<Rightarrow> status r = 401)
   \<and> snd (create_annotation sample_store (sample_g None [''read'', ''update'', ''delete'', ''admin''])
            \<lparr>json = Some (JObj [(''text'', JStr ''hi'')]), args = []\<rparr> sample_world) = sample_world"
  by (rule create_annotation_anonymous) (simp add: sample_g_def)







section \<open>Update\<close>

text \<open>
  C8. An update request without a JSON body, for an annotation that exists and that the
  caller may update, returns the existing annotation with status 200. The only calls are
  the fetch and the authorization check: nothing is merged or saved and the storage is
  unchanged.
\<close>

theorem update_annotation_no_body:
  assumes "fetch A i (storage w) = Some ann" and "ann \<noteq> []"
    and "authorize g ann ''update'' (user g)" and "json req = None"
  shows "update_annotation A g req i w =
           (Inr (jsonify (JObj ann) 200),
            w\<lparr>calls := calls w @ [Fetch i, Authorize ann ''update'' (user g)]\<rparr>)"
  using assms
  by (simp add: update_annotation_def do_fetch_def check_action_def record_call_def Let_def)

theorem update_annotation_no_body_witness:
  "update_annotation sample_store (sample_g (Some sample_user) [''update''])
     \<lparr>json = None, args = []\<rparr> ''1'' sample_world =
     (Inr (jsonify (JObj sample_annotation) 200),
      sample_world\<lparr>calls := calls sample_world
         @ [Fetch ''1'',
            Authorize sample_annotation ''update''
              (user (sample_g (Some sample_user) [''update'']))]\<rparr>)"
  by (rule update_annotation_no_body)
    (simp_all add: fetch_sample, simp_all add: sample_g_def sample_annotation_def)

text \<open>
  C10. A body that parses as JSON but is falsy (\<open>{}\<close>, \<open>null\<close>, \<open>false\<close>, \<open>0\<close>, \<open>[]\<close>, the
  empty string) gives the same result and the same world as no body at all, on create
  and on update. For an authenticated caller create answers 400 and leaves the world as
  it was; update of an existing annotation the caller may update answers 200 with the
  existing annotation, after the fetch and the authorization check only.
\<close>

theorem falsy_body_as_absent:
  assumes "\<not> truthy j"
  shows "create_annotation A g (req\<lparr>json := Some j\<rparr>) w = create_annotation A g (req\<lparr>json := None\<rparr>) w
       \<and> update_annotation A g (req\<lparr>json := Some j\<rparr>) i w = update_annotation A g (req\<lparr>json := None\<rparr>) i w
       \<and> (user g \<noteq> None \<longrightarrow>
            create_annotation A g (req\<lparr>json := Some j\<rparr>) w =
              (Inr (jsonify (JStr ''No JSON payload sent. Annotation not created.'') 400), w))
       \<and> (fetch A i (storage w) = Some ann \<and> ann \<noteq> [] \<and> authorize g ann ''update'' (user g) \<longrightarrow>
            update_annotation A g (req\<lparr>json := Some j\<rparr>) i w =
              (Inr (jsonify (JObj ann) 200),
               w\<lparr>calls := calls w @ [Fetch i, Authorize ann ''update'' (user g)]\<rparr>))"
proof -
  have c: "create_annotation A g (req\<lparr>json := Some j\<rparr>) w = create_annotation A g (req\<lparr>json := None\<rparr>) w"
    using assms by (simp add: create_annotation_def split: option.splits)
  have u: "update_annotation A g (req\<lparr>json := Some j\<rparr>) i w = update_annotation A g (req\<lparr>json := None\<rparr>) i w"
    using assms by (simp add: update_annotation_def split: option.splits prod.splits)
  have c400: "user g \<noteq> None \<longrightarrow>
            create_annotation A g (req\<lparr>json := Some j\<rparr>) w =
              (Inr (jsonify (JStr ''No JSON payload sent. Annotation not created.'') 400), w)"
    using assms by (auto simp add: create_annotation_def split: option.splits)
  have u200: "fetch A i (storage w) = Some ann \<and> ann \<noteq> [] \<and> authorize g ann ''update'' (user g) \<longrightarrow>
            update_annotation A g (req\<lparr>json := Some j\<rparr>) i w =
              (Inr (jsonify (JObj ann) 200),
               w\<lparr>calls := calls w @ [Fetch i, Authorize ann ''update'' (user g)]\<rparr>)"
    using assms
    by (simp add: update_annotation_def do_fetch_def check_action_def record_call_def Let_def)
  from c u c400 u200 show ?thesis by blast
qed

theorem falsy_body_as_absent_witness:
  "create_annotation sample_store (sample_g (Some sample_user) [''update''])
     \<lparr>json = Some (JObj []), args = []\<rparr> sample_world =
     (Inr (jsonify (JStr ''No JSON payload sent. Annotation not created.'') 400), sample_world)
   \<and> update_annotation sample_store (sample_g (Some sample_user) [''update''])
       \<lparr>json = Some (JObj []), args = []\<rparr> ''1'' sample_world =
       (Inr (jsonify (JObj sample_annotation) 200),
        sample_world\<lparr>calls := calls sample_world
          @ [Fetch ''1'',
             Authorize sample_annotation ''update''
               (user (sample_g (Some sample_user) [''update'']))]\<rparr>)"
proof -
  have falsy: "\<not> truthy (JObj [])" by simp
  have known: "user (sample_g (Some sample_user) [''update'']) \<noteq> None"
    by (simp add: sample_g_def)
  have pre: "fetch sample_store ''1'' (storage sample_world) = Some sample_annotation
      \<and> sample_annotation \<noteq> []
      \<and> authorize (sample_g (Some sample_user) [''update'']) sample_annotation ''update''
          (user (sample_g (Some sample_user) [''update'']))"
    by (simp add: fetch_sample) (simp add: sample_g_def sample_annotation_def)
  have req: "\<lparr>json = None, args = []\<rparr>\<lparr>json := Some (JObj [])\<rparr> = \<lparr>json = Some (JObj []), args = []\<rparr>"
    by simp
  note general = falsy_body_as_absent [OF falsy, of sample_store "sample_g (Some sample_user) [''update'']"
      "\<lparr>json = None, args = []\<rparr>" sample_world "''1''" sample_annotation]
  from general [unfolded req] known pre show ?thesis by blast
qed

text \<open>
  C2. When the body of an update is a JSON object whose \<open>permissions\<close> differ from the
  stored ones (\<open>{}\<close> standing for missing stored permissions), the annotation exists and
  the caller may update it, the handler asks for the \<open>admin\<close> action on the stored
  annotation right after the \<open>update\<close> check. If that is refused, the answer is the 401
  response with the context \<open>permissions update\<close>, and the world has the three calls
  only: there is no merge and no save, and the storage is unchanged.
\<close>

theorem update_annotation_permissions_admin:
  assumes "fetch A i (storage w) = Some ann" and "ann \<noteq> []"
    and "authorize g ann ''update'' (user g)"
    and "json req = Some (JObj d)" and "d \<noteq> []"
    and "map_of d ''permissions'' = Some p"
    and "\<not> py_eq p (dict_get_default ann ''permissions'' (JObj []))"
  shows "(\<exists>rest. calls (snd (update_annotation A g req i w)) =
            calls w @ [Fetch i, Authorize ann ''update'' (user g),
                       Authorize ann ''admin'' (user g)] @ rest)
       \<and> (\<not> authorize g ann ''admin'' (user g) \<longrightarrow>
            update_annotation A g req i w =
              (Inr (failed_authz_response g ''permissions update''),
               w\<lparr>calls := calls w @ [Fetch i, Authorize ann ''update'' (user g),
                                       Authorize ann ''admin'' (user g)]\<rparr>)
            \<and> status (failed_authz_response g ''permissions update'') = 401)"
proof -
  let ?d' = "AList.delete ''consumer'' (AList.delete ''user''
               (AList.delete ''created'' (AList.delete ''updated'' d)))"
  have perm: "map_of (AList.update ''id'' (JStr i) ?d') ''permissions'' = Some p"
    using assms(6) by (simp add: AList.update_conv')
  have denied: "\<not> authorize g ann ''admin'' (user g) \<Longrightarrow>
      update_annotation A g req i w =
        (Inr (failed_authz_response g ''permissions update''),
         w\<lparr>calls := calls w @ [Fetch i, Authorize ann ''update'' (user g),
                                 Authorize ann ''admin'' (user g)]\<rparr>)"
    using assms perm
    by (simp add: update_annotation_def do_fetch_def check_action_def record_call_def Let_def
        filter_input_update dict_setitem_def dict_contains_def dict_get_def)
  have granted: "authorize g ann ''admin'' (user g) \<Longrightarrow>
      \<exists>rest. calls (snd (update_annotation A g req i w)) =
            calls w @ [Fetch i, Authorize ann ''update'' (user g),
                       Authorize ann ''admin'' (user g)] @ rest"
    using assms perm
    by (simp add: update_annotation_def do_fetch_def check_action_def record_call_def Let_def
        filter_input_update dict_setitem_def dict_contains_def dict_get_def do_save_def
        split: option.splits prod.splits)
  show ?thesis
  proof (cases "authorize g ann ''admin'' (user g)")
    case True
    with granted show ?thesis by simp
  next
    case False
    with denied [OF False] show ?thesis by (simp add: status_failed_authz_response)
  qed
qed

theorem update_annotation_permissions_admin_witness:
  "update_annotation sample_store (sample_g (Some sample_user) [''update''])
     \<lparr>json = Some (JObj [(''permissions'', JObj [(''read'', JList [JStr ''bob''])])]), args = []\<rparr>
     ''1'' sample_world =
     (Inr (failed_authz_response (sample_g (Some sample_user) [''update'']) ''permissions update''),
      sample_world\<lparr>calls := calls sample_world
        @ [Fetch ''1'',
           Authorize sample_annotation ''update'' (user (sample_g (Some sample_user) [''update''])),
           Authorize sample_annotation ''admin'' (user (sample_g (Some sample_user) [''update'']))]\<rparr>)
   \<and> status (failed_authz_response (sample_g (Some sample_user) [''update'']) ''permissions update'') = 401"
proof -
  let ?g = "sample_g (Some sample_user) [''update'']"
  let ?p = "JObj [(''read'', JList [JStr ''bob''])]"
  let ?req = "\<lparr>json = Some (JObj [(''permissions'', ?p)]), args = []\<rparr>"
  have h2: "sample_annotation \<noteq> []" by (simp add: sample_annotation_def)
  have h3: "authorize ?g sample_annotation ''update'' (user ?g)" by (simp add: sample_g_def)
  have h4: "json ?req = Some (JObj [(''permissions'', ?p)])" by simp
  have h5: "[(''permissions'', ?p)] \<noteq> []" by simp
  have h6: "map_of [(''permissions'', ?p)] ''permissions'' = Some ?p" by simp
  have h7: "\<not> py_eq ?p (dict_get_default sample_annotation ''permissions'' (JObj []))"
    by (simp add: sample_annotation_def dict_get_default_def)
  have h8: "\<not> authorize ?g sample_annotation ''admin'' (user ?g)" by (simp add: sample_g_def)
  from update_annotation_permissions_admin [OF fetch_sample h2 h3 h4 h5 h6 h7] h8
  show ?thesis by blast
qed

text \<open>
  C3. For an update with a non-empty JSON object as body (keys distinct), of an existing
  annotation the caller may update, and with the \<open>admin\<close> check passed where the
  permissions differ: the annotation that is saved (after the \<open>before_annotation_update\<close>
  hook, when there is one) comes from a merged annotation in which \<open>id\<close> is the id of the
  URL, the keys \<open>updated\<close>, \<open>created\<close>, \<open>user\<close> and \<open>consumer\<close> are as stored whatever the
  body says, and any other key has the body's value when the body has the key and the
  stored value otherwise.
\<close>

theorem update_annotation_merge:
  assumes "fetch A i (storage w) = Some ann" and "ann \<noteq> []"
    and "authorize g ann ''update'' (user g)"
    and "json req = Some (JObj d)" and "d \<noteq> []" and "distinct (map fst d)"
    and "authorize g ann ''admin'' (user g)
         \<or> (case map_of d ''permissions'' of None \<Rightarrow> True
             | Some p \<Rightarrow> py_eq p (dict_get_default ann ''permissions'' (JObj [])))"
  shows "\<exists>merged saved.
           saved = (case before_annotation_update g of None \<Rightarrow> merged | Some hook \<Rightarrow> hook merged)
         \<and> fst (update_annotation A g req i w) = Inr (jsonify (JObj (fst (save A saved (storage w)))) 200)
         \<and> storage (snd (update_annotation A g req i w)) = snd (save A saved (storage w))
         \<and> last (calls (snd (update_annotation A g req i w))) = Save saved
         \<and> dict_get merged ''id'' = Some (JStr i)
         \<and> (\<forall>k \<in> set UPDATE_FILTER_FIELDS. dict_get merged k = dict_get ann k)
         \<and> (\<forall>k. k \<notin> set UPDATE_FILTER_FIELDS \<and> k \<noteq> ''id'' \<longrightarrow>
               dict_get merged k = (case dict_get d k of Some v \<Rightarrow> Some v | None \<Rightarrow> dict_get ann k))"
proof -
  let ?d' = "AList.delete ''consumer'' (AList.delete ''user''
               (AList.delete ''created'' (AList.delete ''updated'' d)))"
  let ?up = "AList.update ''id'' (JStr i) ?d'"
  let ?m = "dict_update ann ?up"
  let ?s = "case before_annotation_update g of None \<Rightarrow> ?m | Some hook \<Rightarrow> hook ?m"
  have perm: "map_of ?up ''permissions'' = map_of d ''permissions''"
    by (simp add: AList.update_conv' AList.delete_conv')
  let ?c = "dict_contains ''permissions'' ?up
            \<and> \<not> py_eq (the (dict_get ?up ''permissions''))
                    (dict_get_default ann ''permissions'' (JObj []))"
  have admin: "?c \<longrightarrow> authorize g ann ''admin'' (user g)"
    using assms(7) perm by (auto simp add: dict_contains_def dict_get_def split: option.splits)
  have body: "update_annotation A g req i w =
      (let w2 = w\<lparr>calls := calls w @ [Fetch i, Authorize ann ''update'' (user g)]\<rparr>;
           w3 = (if ?c then w2\<lparr>calls := calls w2 @ [Authorize ann ''admin'' (user g)]\<rparr> else w2);
           w4 = (case before_annotation_update g of None \<Rightarrow> w3
                 | Some hook \<Rightarrow> w3\<lparr>calls := calls w3 @ [BeforeUpdate ?m]\<rparr>)
       in (Inr (jsonify (JObj (fst (save A ?s (storage w)))) 200),
           w4\<lparr>calls := calls w4 @ [Save ?s], storage := snd (save A ?s (storage w))\<rparr>))"
  proof (cases ?c)
    case True
    with admin have ok: "authorize g ann ''admin'' (user g)" by blast
    from True have c: "?c = True" by simp
    show ?thesis
    proof (cases "before_annotation_update g")
      case None
      with assms(1-5) ok show ?thesis
        by (simp add: c update_annotation_def do_fetch_def check_action_def record_call_def Let_def
            filter_input_update dict_setitem_def do_save_def case_prod_beta)
    next
      case (Some h)
      with assms(1-5) ok show ?thesis
        by (simp add: c update_annotation_def do_fetch_def check_action_def record_call_def Let_def
            filter_input_update dict_setitem_def do_save_def case_prod_beta)
    qed
  next
    case False
    then have c: "?c = False" by simp
    show ?thesis
    proof (cases "before_annotation_update g")
      case None
      with assms(1-5) show ?thesis
        by (simp add: c update_annotation_def do_fetch_def check_action_def record_call_def Let_def
            filter_input_update dict_setitem_def do_save_def case_prod_beta)
    next
      case (Some h)
      with assms(1-5) show ?thesis
        by (simp add: c update_annotation_def do_fetch_def check_action_def record_call_def Let_def
            filter_input_update dict_setitem_def do_save_def case_prod_beta)
    qed
  qed
  have run: "fst (update_annotation A g req i w) = Inr (jsonify (JObj (fst (save A ?s (storage w)))) 200)
         \<and> storage (snd (update_annotation A g req i w)) = snd (save A ?s (storage w))
         \<and> last (calls (snd (update_annotation A g req i w))) = Save ?s"
    by (simp add: body Let_def)
  have dist: "distinct (map fst ?up)"
    using assms(6) by (simp add: AList.distinct_update AList.distinct_delete)
  have look: "map_of ?m k = (case map_of ?up k of Some v \<Rightarrow> Some v | None \<Rightarrow> map_of ann k)" for k
    by (rule map_of_dict_update [OF dist])
  have 1: "dict_get ?m ''id'' = Some (JStr i)"
    by (simp add: dict_get_def look AList.update_conv')
  have 2: "\<forall>k \<in> set UPDATE_FILTER_FIELDS. dict_get ?m k = dict_get ann k"
    by (simp add: dict_get_def look AList.update_conv' AList.delete_conv' UPDATE_FILTER_FIELDS_def)
  have 3: "\<forall>k. k \<notin> set UPDATE_FILTER_FIELDS \<and> k \<noteq> ''id'' \<longrightarrow>
               dict_get ?m k = (case dict_get d k of Some v \<Rightarrow> Some v | None \<Rightarrow> dict_get ann k)"
    unfolding dict_get_def
    by (simp add: look AList.update_conv' AList.delete_conv' UPDATE_FILTER_FIELDS_def)
  have 0: "?s = (case before_annotation_update g of None \<Rightarrow> ?m | Some hook \<Rightarrow> hook ?m)"
    by (rule refl)
  from run have r1: "fst (update_annotation A g req i w) = Inr (jsonify (JObj (fst (save A ?s (storage w)))) 200)"
    and r2: "storage (snd (update_annotation A g req i w)) = snd (save A ?s (storage w))"
    and r3: "last (calls (snd (update_annotation A g req i w))) = Save ?s"
    by blast+
  show ?thesis
    by (rule exI [of _ ?m], rule exI [of _ ?s]) (intro conjI 0 r1 r2 r3 1 2 3)
qed

theorem update_annotation_merge_witness:
  "\<exists>merged. fst (update_annotation sample_store (sample_g (Some sample_user) [''update''])
                   \<lparr>json = Some (JObj [(''text'', JStr ''bye''), (''id'', JStr ''999''),
                                        (''user'', JStr ''mallory'')]), args = []\<rparr>
                   ''1'' sample_world) =
               Inr (jsonify (JObj (fst (save sample_store merged (storage sample_world)))) 200)
       \<and> last (calls (snd (update_annotation sample_store (sample_g (Some sample_user) [''update''])
                   \<lparr>json = Some (JObj [(''text'', JStr ''bye''), (''id'', JStr ''999''),
                                        (''user'', JStr ''mallory'')]), args = []\<rparr>
                   ''1'' sample_world))) = Save merged
       \<and> dict_get merged ''id'' = Some (JStr ''1'')
       \<and> dict_get merged ''user'' = Some (JStr ''alice'')
       \<and> dict_get merged ''text'' = Some (JStr ''bye'')
       \<and> dict_get merged ''permissions'' = Some (JObj [(''read'', JList [])])"
proof -
  let ?g = "sample_g (Some sample_user) [''update'']"
  let ?d = "[(''text'', JStr ''bye''), (''id'', JStr ''999''), (''user'', JStr ''mallory'')]"
  let ?req = "\<lparr>json = Some (JObj ?d), args = []\<rparr>"
  have h2: "sample_annotation \<noteq> []" by (simp add: sample_annotation_def)
  have h3: "authorize ?g sample_annotation ''update'' (user ?g)" by (simp add: sample_g_def)
  have h4: "json ?req = Some (JObj ?d)" by simp
  have h5: "?d \<noteq> []" by simp
  have h6: "distinct (map fst ?d)" by simp
  have h7: "authorize ?g sample_annotation ''admin'' (user ?g)
            \<or> (case map_of ?d ''permissions'' of None \<Rightarrow> True
                | Some p \<Rightarrow> py_eq p (dict_get_default sample_annotation ''permissions'' (JObj [])))"
    by simp
  have nohook: "before_annotation_update ?g = None" by (simp add: sample_g_def)
  have k1: "''user'' \<in> set UPDATE_FILTER_FIELDS" by (simp add: UPDATE_FILTER_FIELDS_def)
  have k2: "''text'' \<notin> set UPDATE_FILTER_FIELDS \<and> ''text'' \<noteq> ''id''"
    by (simp add: UPDATE_FILTER_FIELDS_def)
  have k3: "''permissions'' \<notin> set UPDATE_FILTER_FIELDS \<and> ''permissions'' \<noteq> ''id''"
    by (simp add: UPDATE_FILTER_FIELDS_def)
  have v1: "dict_get sample_annotation ''user'' = Some (JStr ''alice'')"
    by (simp add: dict_get_def sample_annotation_def)
  have v2: "dict_get ?d ''text'' = Some (JStr ''bye'')" by (simp add: dict_get_def)
  have v3: "dict_get ?d ''permissions'' = None" by (simp add: dict_get_def)
  have v4: "dict_get sample_annotation ''permissions'' = Some (JObj [(''read'', JList [])])"
    by (simp add: dict_get_def sample_annotation_def)
  from update_annotation_merge [OF fetch_sample h2 h3 h4 h5 h6 h7]
  obtain merged saved where all:
    "saved = (case before_annotation_update ?g of None \<Rightarrow> merged | Some hook \<Rightarrow> hook merged)
     \<and> fst (update_annotation sample_store ?g ?req ''1'' sample_world) =
          Inr (jsonify (JObj (fst (save sample_store saved (storage sample_world)))) 200)
     \<and> storage (snd (update_annotation sample_store ?g ?req ''1'' sample_world)) =
          snd (save sample_store saved (storage sample_world))
     \<and> last (calls (snd (update_annotation sample_store ?g ?req ''1'' sample_world))) = Save saved
     \<and> dict_get merged ''id'' = Some (JStr ''1'')
     \<and> (\<forall>k \<in> set UPDATE_FILTER_FIELDS. dict_get merged k = dict_get sample_annotation k)
     \<and> (\<forall>k. k \<notin> set UPDATE_FILTER_FIELDS \<and> k \<noteq> ''id'' \<longrightarrow>
               dict_get merged k = (case dict_get ?d k of Some v \<Rightarrow> Some v
                                    | None \<Rightarrow> dict_get sample_annotation k))"
    by (elim exE) (erule that)
  note s = all [THEN conjunct1]
    and r1 = all [THEN conjunct2, THEN conjunct1]
    and r3 = all [THEN conjunct2, THEN conjunct2, THEN conjunct2, THEN conjunct1]
    and i = all [THEN conjunct2, THEN conjunct2, THEN conjunct2, THEN conjunct2, THEN conjunct1]
    and f = all [THEN conjunct2, THEN conjunct2, THEN conjunct2, THEN conjunct2, THEN conjunct2,
                 THEN conjunct1]
    and m = all [THEN conjunct2, THEN conjunct2, THEN conjunct2, THEN conjunct2, THEN conjunct2,
                 THEN conjunct2]
  from s nohook have sm: "saved = merged" by simp
  from f k1 v1 have a1: "dict_get merged ''user'' = Some (JStr ''alice'')" by simp
  from m k2 have "dict_get merged ''text'' = (case dict_get ?d ''text'' of Some v \<Rightarrow> Some v
                                    | None \<Rightarrow> dict_get sample_annotation ''text'')" by blast
  with v2 have a2: "dict_get merged ''text'' = Some (JStr ''bye'')" by simp
  from m k3 have "dict_get merged ''permissions'' = (case dict_get ?d ''permissions'' of Some v \<Rightarrow> Some v
                                    | None \<Rightarrow> dict_get sample_annotation ''permissions'')" by blast
  with v3 v4 have a3: "dict_get merged ''permissions'' = Some (JObj [(''read'', JList [])])" by simp
  show ?thesis
    by (rule exI [of _ merged]) (intro conjI r1 [unfolded sm] r3 [unfolded sm] i a1 a2 a3)
qed

section \<open>Search\<close>

lemma update_fresh: "k \<notin> fst ` set al \<Longrightarrow> AList.update k v al = al @ [(k, v)]"
  by (induction al) auto

lemma dict_update_fresh:
  "distinct (map fst u) \<Longrightarrow> fst ` set u \<inter> fst ` set a = {} \<Longrightarrow> dict_update a u = a @ u"
proof (induction u arbitrary: a)
  case Nil
  then show ?case by (simp add: dict_update_def)
next
  case (Cons x u)
  obtain k v where x: "x = (k, v)" by (cases x)
  from Cons.prems x have fresh: "k \<notin> fst ` set a" by auto
  have step: "dict_update a ((k, v) # u) = dict_update (a @ [(k, v)]) u"
    by (simp add: dict_update_def dict_setitem_def update_fresh [OF fresh])
  from Cons.prems x have d: "distinct (map fst u)"
    and disj: "fst ` set u \<inter> fst ` set (a @ [(k, v)]) = {}" by auto
  from Cons.IH [OF d disj] show ?case by (simp add: x step)
qed

lemma dict_of_items_distinct:
  "distinct (map fst items) \<Longrightarrow> dict_of_items items = map (\<lambda>(k, v). (k, JStr v)) items"
proof -
  assume "distinct (map fst items)"
  then have "distinct (map fst (map (\<lambda>(k, v). (k, JStr v)) items))"
    by (simp add: comp_def case_prod_beta)
  from dict_update_fresh [OF this, of "[]"] show ?thesis by (simp add: dict_of_items_def)
qed

lemma map_of_JStr_items:
  "map_of (map (\<lambda>(k, v). (k, JStr v)) items) k = map_option JStr (map_of items k)"
  by (induction items) auto

lemma search_annotations_eq:
  assumes "distinct (map fst (args req))"
  shows "search_annotations int_str A req w =
     (let k0 = map (\<lambda>(k, v). (k, JStr v)) (args req);
          k1 = (case map_of (args req) ''offset'' of None \<Rightarrow> k0
                | Some v \<Rightarrow> AList.update ''offset'' (JInt (case int_str v of Some n \<Rightarrow> n | None \<Rightarrow> 0)) k0);
          k2 = (case map_of (args req) ''limit'' of None \<Rightarrow> k1
                | Some v \<Rightarrow> AList.update ''limit'' (JInt (case int_str v of Some n \<Rightarrow> n | None \<Rightarrow> 20)) k1)
      in (Inr \<lparr>status = 200,
               body = Some (JObj [(''total'', JInt (count A k2 (storage w))),
                                  (''rows'', JList (map JObj (search A k2 (storage w))))])\<rparr>,
          w\<lparr>calls := calls w @ [Search k2, Count k2]\<rparr>))"
proof -
  let ?k0 = "map (\<lambda>(k, v). (k, JStr v)) (args req)"
  have k0: "dict_of_items (args req) = ?k0" by (rule dict_of_items_distinct [OF assms])
  have look: "map_of ?k0 k = map_option JStr (map_of (args req) k)" for k
    by (rule map_of_JStr_items)
  show ?thesis
  proof (cases "map_of (args req) ''offset''")
    case None
    note off = None
    show ?thesis
    proof (cases "map_of (args req) ''limit''")
      case None
      with off show ?thesis
        by (simp add: search_annotations_def k0 look dict_contains_def dict_get_def
            do_search_def do_count_def record_call_def jsonify_def Let_def)
    next
      case (Some l)
      with off show ?thesis
        by (simp add: search_annotations_def k0 look dict_contains_def dict_get_def dict_setitem_def
            do_search_def do_count_def record_call_def jsonify_def Let_def)
    qed
  next
    case (Some v)
    note off = Some
    show ?thesis
    proof (cases "map_of (args req) ''limit''")
      case None
      with off show ?thesis
        by (simp add: search_annotations_def k0 look dict_contains_def dict_get_def dict_setitem_def
            AList.update_conv' do_search_def do_count_def record_call_def jsonify_def Let_def)
    next
      case (Some l)
      with off show ?thesis
        by (simp add: search_annotations_def k0 look dict_contains_def dict_get_def dict_setitem_def
            AList.update_conv' do_search_def do_count_def record_call_def jsonify_def Let_def)
    qed
  qed
qed

lemma search_annotations_run:
  assumes "distinct (map fst (args req))"
  shows "\<exists>kwargs.
           search_annotations int_str A req w =
             (Inr \<lparr>status = 200,
                   body = Some (JObj [(''total'', JInt (count A kwargs (storage w))),
                                      (''rows'', JList (map JObj (search A kwargs (storage w))))])\<rparr>,
              w\<lparr>calls := calls w @ [Search kwargs, Count kwargs]\<rparr>)
         \<and> (\<forall>k. dict_get kwargs k =
                (case map_of (args req) k of
                   None \<Rightarrow> None
                 | Some v \<Rightarrow>
                     Some (if k = ''offset'' then JInt (case int_str v of Some n \<Rightarrow> n | None \<Rightarrow> 0)
                           else if k = ''limit'' then JInt (case int_str v of Some n \<Rightarrow> n | None \<Rightarrow> 20)
                           else JStr v)))"
proof -
  let ?k0 = "map (\<lambda>(k, v). (k, JStr v)) (args req)"
  let ?k1 = "case map_of (args req) ''offset'' of None \<Rightarrow> ?k0
             | Some v \<Rightarrow> AList.update ''offset'' (JInt (case int_str v of Some n \<Rightarrow> n | None \<Rightarrow> 0)) ?k0"
  let ?k2 = "case map_of (args req) ''limit'' of None \<Rightarrow> ?k1
             | Some v \<Rightarrow> AList.update ''limit'' (JInt (case int_str v of Some n \<Rightarrow> n | None \<Rightarrow> 20)) ?k1"
  have run: "search_annotations int_str A req w =
             (Inr \<lparr>status = 200,
                   body = Some (JObj [(''total'', JInt (count A ?k2 (storage w))),
                                      (''rows'', JList (map JObj (search A ?k2 (storage w))))])\<rparr>,
              w\<lparr>calls := calls w @ [Search ?k2, Count ?k2]\<rparr>)"
    using search_annotations_eq [OF assms, of int_str A w] by (simp add: Let_def)
  have look: "\<forall>k. dict_get ?k2 k =
                (case map_of (args req) k of
                   None \<Rightarrow> None
                 | Some v \<Rightarrow>
                     Some (if k = ''offset'' then JInt (case int_str v of Some n \<Rightarrow> n | None \<Rightarrow> 0)
                           else if k = ''limit'' then JInt (case int_str v of Some n \<Rightarrow> n | None \<Rightarrow> 20)
                           else JStr v))"
    unfolding dict_get_def
    by (auto simp add: AList.update_conv' map_of_JStr_items split: option.splits)
  show ?thesis by (rule exI [of _ ?k2]) (intro conjI run look)
qed

lemma sample_int_5: "sample_int ''5'' = Some 5"
  by (simp add: sample_int_def digit_val_def)

lemma sample_int_20: "sample_int ''20'' = Some 20"
  by (simp add: sample_int_def digit_val_def)

lemma sample_int_abc: "sample_int ''abc'' = None"
  by (simp add: sample_int_def digit_val_def)

lemma sample_int_x: "sample_int ''x'' = None"
  by (simp add: sample_int_def digit_val_def)

text \<open>
  C9. A search request (each query parameter given once) is answered with status 200 and
  the object \<open>{"total": count, "rows": results}\<close>, where the storage search and the
  storage count are called, in this order, with one and the same criteria: every query
  parameter as sent, except \<open>offset\<close> and \<open>limit\<close>, which are the integers \<open>int\<close> reads
  from them, or 0 and 20 when \<open>int\<close> raises \<open>ValueError\<close>. No exception escapes.
\<close>

theorem search_annotations_forwards:
  assumes "distinct (map fst (args req))"
  shows "\<exists>kwargs.
           search_annotations int_str A req w =
             (Inr \<lparr>status = 200,
                   body = Some (JObj [(''total'', JInt (count A kwargs (storage w))),
                                      (''rows'', JList (map JObj (search A kwargs (storage w))))])\<rparr>,
              w\<lparr>calls := calls w @ [Search kwargs, Count kwargs]\<rparr>)
         \<and> (\<forall>k. dict_get kwargs k =
                (case map_of (args req) k of
                   None \<Rightarrow> None
                 | Some v \<Rightarrow>
                     Some (if k = ''offset'' then JInt (case int_str v of Some n \<Rightarrow> n | None \<Rightarrow> 0)
                           else if k = ''limit'' then JInt (case int_str v of Some n \<Rightarrow> n | None \<Rightarrow> 20)
                           else JStr v)))"
  using assms by (rule search_annotations_run)

theorem search_annotations_forwards_witness:
  "\<exists>kwargs.
     search_annotations sample_int sample_store
       \<lparr>json = None, args = [(''text'', ''hi''), (''offset'', ''x''), (''limit'', ''5'')]\<rparr> sample_world =
       (Inr \<lparr>status = 200,
             body = Some (JObj [(''total'', JInt (count sample_store kwargs (storage sample_world))),
                                (''rows'', JList (map JObj (search sample_store kwargs (storage sample_world))))])\<rparr>,
        sample_world\<lparr>calls := calls sample_world @ [Search kwargs, Count kwargs]\<rparr>)
     \<and> dict_get kwargs ''text'' = Some (JStr ''hi'')
     \<and> dict_get kwargs ''offset'' = Some (JInt 0)
     \<and> dict_get kwargs ''limit'' = Some (JInt 5)
     \<and> dict_get kwargs ''user'' = None"
proof -
  let ?req = "\<lparr>json = None, args = [(''text'', ''hi''), (''offset'', ''x''), (''limit'', ''5'')]\<rparr>"
  have h1: "distinct (map fst (args ?req))" by simp
  from search_annotations_forwards [OF h1, of sample_int sample_store sample_world]
  obtain kwargs where all:
    "search_annotations sample_int sample_store ?req sample_world =
       (Inr \<lparr>status = 200,
             body = Some (JObj [(''total'', JInt (count sample_store kwargs (storage sample_world))),
                                (''rows'', JList (map JObj (search sample_store kwargs (storage sample_world))))])\<rparr>,
        sample_world\<lparr>calls := calls sample_world @ [Search kwargs, Count kwargs]\<rparr>)
     \<and> (\<forall>k. dict_get kwargs k =
                (case map_of (args ?req) k of
                   None \<Rightarrow> None
                 | Some v \<Rightarrow>
                     Some (if k = ''offset'' then JInt (case sample_int v of Some n \<Rightarrow> n | None \<Rightarrow> 0)
                           else if k = ''limit'' then JInt (case sample_int v of Some n \<Rightarrow> n | None \<Rightarrow> 20)
                           else JStr v)))"
    by (elim exE) (erule that)
  note run = all [THEN conjunct1] and look = all [THEN conjunct2, rule_format]
  have t: "dict_get kwargs ''text'' = Some (JStr ''hi'')" by (simp add: look)
  have off: "dict_get kwargs ''offset'' = Some (JInt 0)" by (simp add: look sample_int_x)
  have l: "dict_get kwargs ''limit'' = Some (JInt 5)" by (simp add: look sample_int_5)
  have u: "dict_get kwargs ''user'' = None" by (simp add: look)
  show ?thesis by (rule exI [of _ kwargs]) (intro conjI run t off l u)
qed

lemma update_over_relabel:
  "k \<noteq> l \<Longrightarrow>
   AList.update k v (map (\<lambda>(k', x). (k', if k' = l then c else x)) al) =
   map (\<lambda>(k', x). (k', if k' = l then c else x)) (AList.update k v al)"
  by (induction al) auto

lemma update_absorbs_relabel:
  "distinct (map fst al) \<Longrightarrow>
   AList.update k v (map (\<lambda>(k', x). (k', if k' = k then c else x)) al) = AList.update k v al"
proof (induction al)
  case Nil
  then show ?case by simp
next
  case (Cons p al)
  obtain k' x where p: "p = (k', x)" by (cases p)
  show ?case
  proof (cases "k' = k")
    case True
    with Cons.prems p have "k \<notin> fst ` set al" by auto
    then have "map (\<lambda>(k', x). (k', if k' = k then c else x)) al = al"
      by (induction al) auto
    with True p show ?thesis by simp
  next
    case False
    with Cons p show ?thesis by simp
  qed
qed

lemma map_of_relabel:
  "map_of (map (\<lambda>(k', x). (k', if k' = l then c else x)) al) k =
   (if k = l then map_option (\<lambda>_. c) (map_of al k) else map_of al k)"
  by (induction al) auto

lemma search_limit_as_20:
  assumes "distinct (map fst (args req))"
    and "map_of (args req) ''limit'' = Some v"
    and "int_str v = None"
    and "int_str ''20'' = Some 20"
  shows "search_annotations int_str A req w =
         search_annotations int_str A
           (req\<lparr>args := map (\<lambda>(k, x). (k, if k = ''limit'' then ''20'' else x)) (args req)\<rparr>) w"
proof -
  let ?f = "\<lambda>(k, x). (k, if k = ''limit'' then ''20'' else x)"
  let ?g = "\<lambda>(k, x). (k, if k = ''limit'' then JStr ''20'' else x)"
  let ?items = "args req"
  let ?req' = "req\<lparr>args := map ?f ?items\<rparr>"
  let ?k0 = "map (\<lambda>(k, v). (k, JStr v)) ?items"
  let ?k1 = "case map_of ?items ''offset'' of None \<Rightarrow> ?k0
             | Some v \<Rightarrow> AList.update ''offset'' (JInt (case int_str v of Some n \<Rightarrow> n | None \<Rightarrow> 0)) ?k0"
  let ?k2 = "AList.update ''limit'' (JInt 20) ?k1"
  have dist': "distinct (map fst (args ?req'))"
    using assms(1) by (simp add: comp_def case_prod_beta)
  have look': "map_of (map ?f ?items) k = (if k = ''limit'' then Some ''20'' else map_of ?items k)" for k
    using assms(2) by (simp add: map_of_relabel)
  have k0': "map (\<lambda>(k, v). (k, JStr v)) (map ?f ?items) = map ?g ?k0"
    by (simp add: comp_def case_prod_beta)
  have k1': "(case map_of ?items ''offset'' of None \<Rightarrow> map ?g ?k0
              | Some v \<Rightarrow> AList.update ''offset'' (JInt (case int_str v of Some n \<Rightarrow> n | None \<Rightarrow> 0))
                            (map ?g ?k0)) = map ?g ?k1"
    by (simp del: map_map add: update_over_relabel split: option.splits)
  have d1: "distinct (map fst ?k1)"
    using assms(1) by (simp add: AList.distinct_update comp_def case_prod_beta split: option.splits)
  have k2': "AList.update ''limit'' (JInt 20) (map ?g ?k1) = ?k2"
    by (rule update_absorbs_relabel [OF d1])
  have left: "search_annotations int_str A req w =
      (Inr \<lparr>status = 200,
            body = Some (JObj [(''total'', JInt (count A ?k2 (storage w))),
                               (''rows'', JList (map JObj (search A ?k2 (storage w))))])\<rparr>,
       w\<lparr>calls := calls w @ [Search ?k2, Count ?k2]\<rparr>)"
    using search_annotations_eq [OF assms(1), of int_str A w] assms(2,3) by (simp add: Let_def)
  have right: "search_annotations int_str A ?req' w =
      (Inr \<lparr>status = 200,
            body = Some (JObj [(''total'', JInt (count A ?k2 (storage w))),
                               (''rows'', JList (map JObj (search A ?k2 (storage w))))])\<rparr>,
       w\<lparr>calls := calls w @ [Search ?k2, Count ?k2]\<rparr>)"
    using search_annotations_eq [OF dist', of int_str A w]
    by (simp del: map_map add: Let_def look' assms(4) k0' k1' k2')
  from left right show ?thesis by simp
qed

text \<open>
  C5 (amended). For a search request (each query parameter given once) whose \<open>limit\<close>
  is a string on which \<open>int\<close> raises \<open>ValueError\<close>: the storage search and count are both
  called with \<open>limit\<close> bound to the integer 20, and (\<open>int\<close> reading \<open>20\<close> as 20) the
  result and the calls are those of the same request with \<open>limit=20\<close>. For a search
  request without a \<open>limit\<close> parameter the criteria handed to search and count have no
  \<open>limit\<close> at all.
\<close>

theorem search_limit_unparsable:
  assumes "distinct (map fst (args req))"
  shows "(\<forall>v. map_of (args req) ''limit'' = Some v \<and> int_str v = None \<longrightarrow>
            (\<exists>kwargs. calls (snd (search_annotations int_str A req w)) =
                         calls w @ [Search kwargs, Count kwargs]
                     \<and> dict_get kwargs ''limit'' = Some (JInt 20))
            \<and> (int_str ''20'' = Some 20 \<longrightarrow>
                  search_annotations int_str A req w =
                  search_annotations int_str A
                    (req\<lparr>args := map (\<lambda>(k, x). (k, if k = ''limit'' then ''20'' else x)) (args req)\<rparr>) w))
       \<and> (map_of (args req) ''limit'' = None \<longrightarrow>
            (\<exists>kwargs. calls (snd (search_annotations int_str A req w)) =
                         calls w @ [Search kwargs, Count kwargs]
                     \<and> dict_get kwargs ''limit'' = None))"
proof -
  from search_annotations_run [OF assms, of int_str A w]
  obtain kwargs where all:
    "search_annotations int_str A req w =
       (Inr \<lparr>status = 200,
             body = Some (JObj [(''total'', JInt (count A kwargs (storage w))),
                                (''rows'', JList (map JObj (search A kwargs (storage w))))])\<rparr>,
        w\<lparr>calls := calls w @ [Search kwargs, Count kwargs]\<rparr>)
     \<and> (\<forall>k. dict_get kwargs k =
                (case map_of (args req) k of
                   None \<Rightarrow> None
                 | Some v \<Rightarrow>
                     Some (if k = ''offset'' then JInt (case int_str v of Some n \<Rightarrow> n | None \<Rightarrow> 0)
                           else if k = ''limit'' then JInt (case int_str v of Some n \<Rightarrow> n | None \<Rightarrow> 20)
                           else JStr v)))"
    by (elim exE) (erule that)
  note run = all [THEN conjunct1] and look = all [THEN conjunct2, rule_format]
  have cs: "calls (snd (search_annotations int_str A req w)) = calls w @ [Search kwargs, Count kwargs]"
    by (simp add: run)
  have bad: "(\<exists>kwargs. calls (snd (search_annotations int_str A req w)) =
                         calls w @ [Search kwargs, Count kwargs]
                     \<and> dict_get kwargs ''limit'' = Some (JInt 20))
            \<and> (int_str ''20'' = Some 20 \<longrightarrow>
                  search_annotations int_str A req w =
                  search_annotations int_str A
                    (req\<lparr>args := map (\<lambda>(k, x). (k, if k = ''limit'' then ''20'' else x)) (args req)\<rparr>) w)"
    if "map_of (args req) ''limit'' = Some v \<and> int_str v = None" for v
  proof -
    from that have l: "map_of (args req) ''limit'' = Some v" and n: "int_str v = None" by simp_all
    have "dict_get kwargs ''limit'' = Some (JInt 20)" by (simp add: look l n)
    with cs have 1: "\<exists>kwargs. calls (snd (search_annotations int_str A req w)) =
                         calls w @ [Search kwargs, Count kwargs]
                     \<and> dict_get kwargs ''limit'' = Some (JInt 20)" by blast
    have 2: "int_str ''20'' = Some 20 \<longrightarrow>
                  search_annotations int_str A req w =
                  search_annotations int_str A
                    (req\<lparr>args := map (\<lambda>(k, x). (k, if k = ''limit'' then ''20'' else x)) (args req)\<rparr>) w"
      by (rule impI) (rule search_limit_as_20 [where int_str = int_str and v = v, OF assms l n])
    from 1 2 show ?thesis by (rule conjI)
  qed
  have omitted: "\<exists>kwargs. calls (snd (search_annotations int_str A req w)) =
                         calls w @ [Search kwargs, Count kwargs]
                     \<and> dict_get kwargs ''limit'' = None"
    if "map_of (args req) ''limit'' = None"
  proof -
    have "dict_get kwargs ''limit'' = None" by (simp add: look that)
    with cs show ?thesis by blast
  qed
  from bad omitted show ?thesis by blast
qed

theorem search_limit_unparsable_witness:
  "search_annotations sample_int sample_store
     \<lparr>json = None, args = [(''text'', ''hi''), (''limit'', ''abc'')]\<rparr> sample_world =
   search_annotations sample_int sample_store
     \<lparr>json = None, args = [(''text'', ''hi''), (''limit'', ''20'')]\<rparr> sample_world
   \<and> (\<exists>kwargs. calls (snd (search_annotations sample_int sample_store
                   \<lparr>json = None, args = [(''text'', ''hi''), (''limit'', ''abc'')]\<rparr> sample_world)) =
                 calls sample_world @ [Search kwargs, Count kwargs]
               \<and> dict_get kwargs ''limit'' = Some (JInt 20))
   \<and> (\<exists>kwargs. calls (snd (search_annotations sample_int sample_store
                   \<lparr>json = None, args = [(''text'', ''hi'')]\<rparr> sample_world)) =
                 calls sample_world @ [Search kwargs, Count kwargs]
               \<and> dict_get kwargs ''limit'' = None)"
proof -
  let ?req = "\<lparr>json = None, args = [(''text'', ''hi''), (''limit'', ''abc'')]\<rparr>"
  let ?bare = "\<lparr>json = None, args = [(''text'', ''hi'')]\<rparr>"
  have h1: "distinct (map fst (args ?req))" by simp
  have l: "map_of (args ?req) ''limit'' = Some ''abc''" by simp
  from l sample_int_abc
  have h2: "map_of (args ?req) ''limit'' = Some ''abc'' \<and> sample_int ''abc'' = None"
    by (rule conjI)
  have h0: "distinct (map fst (args ?bare))" by simp
  have none: "map_of (args ?bare) ''limit'' = None" by simp
  note bad = search_limit_unparsable [OF h1, of sample_int sample_store sample_world,
      THEN conjunct1, rule_format, OF h2]
  note omitted = search_limit_unparsable [OF h0, of sample_int sample_store sample_world,
      THEN conjunct2, rule_format, OF none]
  from bad [THEN conjunct2, rule_format, OF sample_int_20]
  have same: "search_annotations sample_int sample_store ?req sample_world =
      search_annotations sample_int sample_store
        \<lparr>json = None, args = [(''text'', ''hi''), (''limit'', ''20'')]\<rparr> sample_world"
    by simp
  show ?thesis by (intro conjI same bad [THEN conjunct1] omitted)
qed

text \<open>
  C5 as stated fails: with \<open>limit=abc\<close> the storage search and count are called with
  \<open>limit\<close> bound to 20, with the parameter left out they are called with no criteria.
\<close>

theorem search_limit_omitted_counterexample:
  "calls (snd (search_annotations sample_int sample_store
                 \<lparr>json = None, args = [(''limit'', ''abc'')]\<rparr> sample_world))
     = [Search [(''limit'', JInt 20)], Count [(''limit'', JInt 20)]]
   \<and> calls (snd (search_annotations sample_int sample_store \<lparr>json = None, args = []\<rparr> sample_world))
     = [Search [], Count []]
   \<and> search_annotations sample_int sample_store \<lparr>json = None, args = [(''limit'', ''abc'')]\<rparr> sample_world
     \<noteq> search_annotations sample_int sample_store \<lparr>json = None, args = []\<rparr> sample_world"
proof -
  have a: "calls (snd (search_annotations sample_int sample_store
                 \<lparr>json = None, args = [(''limit'', ''abc'')]\<rparr> sample_world))
     = [Search [(''limit'', JInt 20)], Count [(''limit'', JInt 20)]]"
    by (simp add: search_annotations_eq sample_int_abc sample_world_def Let_def)
  have b: "calls (snd (search_annotations sample_int sample_store \<lparr>json = None, args = []\<rparr> sample_world))
     = [Search [], Count []]"
    by (simp add: search_annotations_eq sample_world_def Let_def)
  have c: "search_annotations sample_int sample_store \<lparr>json = None, args = [(''limit'', ''abc'')]\<rparr> sample_world
     \<noteq> search_annotations sample_int sample_store \<lparr>json = None, args = []\<rparr> sample_world"
  proof
    assume e: "search_annotations sample_int sample_store \<lparr>json = None, args = [(''limit'', ''abc'')]\<rparr> sample_world
       = search_annotations sample_int sample_store \<lparr>json = None, args = []\<rparr> sample_world"
    from a [unfolded e] b show False by simp
  qed
  show ?thesis by (intro conjI a b c)
qed

section \<open>Unauthorized responses\<close>

lemma mentions_prefix: "mentions word (word @ rest)"
proof (cases "word @ rest")
  case Nil
  then show ?thesis by simp
next
  case (Cons a list)
  have "take (length word) (a # list) = word"
    unfolding Cons [symmetric] by simp
  then have "mentions word (a # list)" by simp
  then show ?thesis unfolding Cons .
qed

lemma mentions_append: "mentions word (pre @ word @ rest)"
  by (induction pre) (auto simp add: mentions_prefix)

lemma read_annotation_401:
  "status (fst (read_annotation A g i w)) = 401 \<Longrightarrow>
   fst (read_annotation A g i w) = failed_authz_response g []"
  by (auto simp add: read_annotation_def do_fetch_def jsonify_def check_action_def Let_def
      split: option.splits if_splits)

lemma delete_annotation_401:
  "status (fst (delete_annotation A g i w)) = 401 \<Longrightarrow>
   fst (delete_annotation A g i w) = failed_authz_response g []"
  by (auto simp add: delete_annotation_def do_fetch_def jsonify_def check_action_def Let_def
      split: option.splits if_splits)

lemma create_annotation_401:
  "fst (create_annotation A g req w) = Inr r \<Longrightarrow> status r = 401 \<Longrightarrow>
   r = failed_authz_response g ''create annotation''"
  by (auto simp add: create_annotation_def jsonify_def Let_def do_save_def case_prod_beta
      split: option.splits if_splits sum.splits json.splits)


lemma update_annotation_401:
  assumes "fst (update_annotation A g req i w) = Inr r" and "status r = 401"
  shows "r = failed_authz_response g [] \<or> r = failed_authz_response g ''permissions update''"
proof (cases "fetch A i (storage w)")
  case None
  with assms show ?thesis
    by (auto simp add: update_annotation_def do_fetch_def jsonify_def)
next
  case (Some ann)
  show ?thesis
  proof (cases "ann = []")
    case True
    with Some assms show ?thesis
      by (auto simp add: update_annotation_def do_fetch_def jsonify_def)
  next
    case False
    note found = Some False
    show ?thesis
    proof (cases "authorize g ann ''update'' (user g)")
      case False
      with found assms show ?thesis
        by (auto simp add: update_annotation_def do_fetch_def check_action_def Let_def)
    next
      case True
      note upd = True
      show ?thesis
      proof (cases "case json req of None \<Rightarrow> False | Some j \<Rightarrow> truthy j")
        case False
        with found upd assms show ?thesis
          by (auto simp add: update_annotation_def do_fetch_def check_action_def Let_def jsonify_def)
      next
        case True
        note body = True
        show ?thesis
        proof (cases "filter_input (the (json req)) UPDATE_FILTER_FIELDS")
          case (Inl e)
          with found upd body assms show ?thesis
            by (auto simp add: update_annotation_def do_fetch_def check_action_def Let_def)
        next
          case (Inr obj)
          show ?thesis
          proof (cases obj)
            case (JObj d)
            let ?up = "dict_setitem ''id'' (JStr i) d"
            let ?c = "dict_contains ''permissions'' ?up
                      \<and> \<not> py_eq (the (dict_get ?up ''permissions''))
                              (dict_get_default ann ''permissions'' (JObj []))"
            show ?thesis
            proof (cases "?c \<and> \<not> authorize g ann ''admin'' (user g)")
              case True
              then have c: "?c = True" and a: "\<not> authorize g ann ''admin'' (user g)" by simp_all
              from found upd body Inr JObj a assms show ?thesis
                by (auto simp add: c update_annotation_def do_fetch_def check_action_def Let_def)
            next
              case False
              have none: "fst (if ?c then check_action g ann ''admin'' ''permissions update'' w2
                               else (None, w2)) = None" for w2 :: "'a world"
                using False by (auto simp add: check_action_def Let_def)
              from found upd body Inr JObj assms none show ?thesis
                by (auto simp add: update_annotation_def do_fetch_def check_action_def [of g ann "''update''"]
                    Let_def jsonify_def do_save_def case_prod_beta split: option.splits)
            qed
          qed (use found upd body Inr assms in
                \<open>auto simp add: update_annotation_def do_fetch_def check_action_def Let_def\<close>)
        qed
      qed
    qed
  qed
qed


lemma read_annotation_denied:
  "fetch A i (storage w) = Some ann \<Longrightarrow> ann \<noteq> [] \<Longrightarrow> \<not> authorize g ann ''read'' (user g) \<Longrightarrow>
   fst (read_annotation A g i w) = failed_authz_response g []"
  by (simp add: read_annotation_def do_fetch_def check_action_def Let_def)

lemma delete_annotation_denied:
  "fetch A i (storage w) = Some ann \<Longrightarrow> ann \<noteq> [] \<Longrightarrow> \<not> authorize g ann ''delete'' (user g) \<Longrightarrow>
   fst (delete_annotation A g i w) = failed_authz_response g []"
  by (simp add: delete_annotation_def do_fetch_def check_action_def Let_def)

lemma update_annotation_denied:
  "fetch A i (storage w) = Some ann \<Longrightarrow> ann \<noteq> [] \<Longrightarrow> \<not> authorize g ann ''update'' (user g) \<Longrightarrow>
   fst (update_annotation A g req i w) = Inr (failed_authz_response g [])"
  by (simp add: update_annotation_def do_fetch_def check_action_def Let_def)

lemma update_annotation_admin_denied:
  assumes "fetch A i (storage w) = Some ann" and "ann \<noteq> []"
    and "authorize g ann ''update'' (user g)"
    and "json req = Some (JObj d)" and "d \<noteq> []"
    and "map_of d ''permissions'' = Some p"
    and "\<not> py_eq p (dict_get_default ann ''permissions'' (JObj []))"
    and "\<not> authorize g ann ''admin'' (user g)"
  shows "fst (update_annotation A g req i w) = Inr (failed_authz_response g ''permissions update'')"
proof -
  let ?d' = "AList.delete ''consumer'' (AList.delete ''user''
               (AList.delete ''created'' (AList.delete ''updated'' d)))"
  have perm: "map_of (AList.update ''id'' (JStr i) ?d') ''permissions'' = Some p"
    using assms(6) by (simp add: AList.update_conv')
  show ?thesis
    using assms perm
    by (simp add: update_annotation_def do_fetch_def check_action_def record_call_def Let_def
        filter_input_update dict_setitem_def dict_contains_def dict_get_def)
qed

lemma create_annotation_denied:
  "user g = None \<Longrightarrow>
   fst (create_annotation A g req w) = Inr (failed_authz_response g ''create annotation'')"
  by (simp add: create_annotation_def)

lemma context_changes_message:
  "failed_authz_response g [] \<noteq> failed_authz_response g ''permissions update''"
  by (simp add: failed_authz_response_def jsonify_def Let_def)

text \<open>
  C6 (amended). Every 401 response of the read, delete, update and create handlers is
  the response of \<open>_failed_authz_response\<close>. A refused \<open>read\<close>, \<open>delete\<close> or \<open>update\<close>
  check answers with no context, the refused \<open>admin\<close> check with the context
  \<open>permissions update\<close>, an anonymous create with the context \<open>create annotation\<close>, and
  no other 401 response exists. The body is a JSON string that names the context it is
  given, the caller's user id and the caller's consumer key (\<open>None\<close> for both when the
  caller is anonymous). Without context the message is one text for every action, and it
  differs from the one with a context.
\<close>

theorem unauthorized_message:
  "(status (fst (read_annotation A g i w)) = 401 \<longrightarrow>
      fst (read_annotation A g i w) = failed_authz_response g [])
   \<and> (fetch A i (storage w) = Some ann \<and> ann \<noteq> [] \<and> \<not> authorize g ann ''read'' (user g) \<longrightarrow>
      fst (read_annotation A g i w) = failed_authz_response g [])
   \<and> (status (fst (delete_annotation A g i w)) = 401 \<longrightarrow>
      fst (delete_annotation A g i w) = failed_authz_response g [])
   \<and> (fetch A i (storage w) = Some ann \<and> ann \<noteq> [] \<and> \<not> authorize g ann ''delete'' (user g) \<longrightarrow>
      fst (delete_annotation A g i w) = failed_authz_response g [])
   \<and> (\<forall>r. fst (update_annotation A g req i w) = Inr r \<and> status r = 401 \<longrightarrow>
          r = failed_authz_response g [] \<or> r = failed_authz_response g ''permissions update'')
   \<and> (fetch A i (storage w) = Some ann \<and> ann \<noteq> [] \<and> \<not> authorize g ann ''update'' (user g) \<longrightarrow>
      fst (update_annotation A g req i w) = Inr (failed_authz_response g []))
   \<and> (fetch A i (storage w) = Some ann \<and> ann \<noteq> [] \<and> authorize g ann ''update'' (user g)
        \<and> json req = Some (JObj d) \<and> d \<noteq> [] \<and> map_of d ''permissions'' = Some p
        \<and> \<not> py_eq p (dict_get_default ann ''permissions'' (JObj []))
        \<and> \<not> authorize g ann ''admin'' (user g) \<longrightarrow>
      fst (update_annotation A g req i w) = Inr (failed_authz_response g ''permissions update''))
   \<and> (\<forall>r. fst (create_annotation A g req w) = Inr r \<and> status r = 401 \<longrightarrow>
          r = failed_authz_response g ''create annotation'')
   \<and> (user g = None \<longrightarrow>
      fst (create_annotation A g req w) = Inr (failed_authz_response g ''create annotation''))
   \<and> (\<exists>text. failed_authz_response g msg = \<lparr>status = 401, body = Some (JStr text)\<rparr>
          \<and> mentions (case user g of Some u \<Rightarrow> id' u | None \<Rightarrow> ''None'') text
          \<and> mentions (case user g of Some u \<Rightarrow> key (consumer u) | None \<Rightarrow> ''None'') text
          \<and> mentions msg text)
   \<and> body (failed_authz_response g []) =
        Some (JStr (''Cannot authorize request. Perhaps you're not logged in as ''
                    @ ''a user with appropriate permissions on this annotation? (user=''
                    @ (case user g of Some u \<Rightarrow> id' u | None \<Rightarrow> ''None'')
                    @ '', consumer=''
                    @ (case user g of Some u \<Rightarrow> key (consumer u) | None \<Rightarrow> ''None'')
                    @ '')''))
   \<and> failed_authz_response g [] \<noteq> failed_authz_response g ''permissions update''"
proof -
  let ?U = "case user g of Some u \<Rightarrow> id' u | None \<Rightarrow> ''None''"
  let ?C = "case user g of Some u \<Rightarrow> key (consumer u) | None \<Rightarrow> ''None''"
  let ?ctx = "if msg \<noteq> [] then '' ('' @ msg @ '')'' else []"
  let ?mid = "''. Perhaps you're not logged in as a user with appropriate permissions on this annotation? (user=''"
  let ?text = "''Cannot authorize request'' @ ?ctx @ ?mid @ ?U @ '', consumer='' @ ?C @ '')''"
  have resp: "failed_authz_response g msg = \<lparr>status = 401, body = Some (JStr ?text)\<rparr>"
    by (simp add: failed_authz_response_def jsonify_def Let_def)
  have eU: "?text = (''Cannot authorize request'' @ ?ctx @ ?mid) @ ?U @ ('', consumer='' @ ?C @ '')'')"
    by simp
  have eC: "?text = (''Cannot authorize request'' @ ?ctx @ ?mid @ ?U @ '', consumer='') @ ?C @ '')''"
    by simp
  have mU: "mentions ?U ?text"
    by (subst eU) (rule mentions_append)
  have mC: "mentions ?C ?text"
    by (subst eC) (rule mentions_append)
  have mM: "mentions msg ?text"
  proof (cases "msg = []")
    case True
    have "mentions [] ?text" using mentions_append [of "[]" "[]" ?text] by simp
    with True show ?thesis by simp
  next
    case False
    then have eM: "?text = (''Cannot authorize request'' @ '' ('') @ msg @ ('')'' @ ?mid @ ?U @ '', consumer='' @ ?C @ '')'')"
      by simp
    show ?thesis by (subst eM) (rule mentions_append)
  qed
  have gen: "body (failed_authz_response g []) =
        Some (JStr (''Cannot authorize request. Perhaps you're not logged in as ''
                    @ ''a user with appropriate permissions on this annotation? (user=''
                    @ ?U @ '', consumer='' @ ?C @ '')''))"
    by (simp add: failed_authz_response_def jsonify_def Let_def)
  have ex: "\<exists>text. failed_authz_response g msg = \<lparr>status = 401, body = Some (JStr text)\<rparr>
          \<and> mentions ?U text \<and> mentions ?C text \<and> mentions msg text"
    by (rule exI [of _ ?text]) (intro conjI resp mU mC mM)
  have rd: "status (fst (read_annotation A g i w)) = 401 \<longrightarrow>
      fst (read_annotation A g i w) = failed_authz_response g []"
    by (rule impI) (rule read_annotation_401)
  have dl: "status (fst (delete_annotation A g i w)) = 401 \<longrightarrow>
      fst (delete_annotation A g i w) = failed_authz_response g []"
    by (rule impI) (rule delete_annotation_401)
  have up: "\<forall>r. fst (update_annotation A g req i w) = Inr r \<and> status r = 401 \<longrightarrow>
          r = failed_authz_response g [] \<or> r = failed_authz_response g ''permissions update''"
    using update_annotation_401 by blast
  have cr: "\<forall>r. fst (create_annotation A g req w) = Inr r \<and> status r = 401 \<longrightarrow>
          r = failed_authz_response g ''create annotation''"
    using create_annotation_401 by blast
  have rd': "fetch A i (storage w) = Some ann \<and> ann \<noteq> [] \<and> \<not> authorize g ann ''read'' (user g) \<longrightarrow>
      fst (read_annotation A g i w) = failed_authz_response g []"
    using read_annotation_denied by blast
  have dl': "fetch A i (storage w) = Some ann \<and> ann \<noteq> [] \<and> \<not> authorize g ann ''delete'' (user g) \<longrightarrow>
      fst (delete_annotation A g i w) = failed_authz_response g []"
    using delete_annotation_denied by blast
  have up': "fetch A i (storage w) = Some ann \<and> ann \<noteq> [] \<and> \<not> authorize g ann ''update'' (user g) \<longrightarrow>
      fst (update_annotation A g req i w) = Inr (failed_authz_response g [])"
    using update_annotation_denied by blast
  have ad: "fetch A i (storage w) = Some ann \<and> ann \<noteq> [] \<and> authorize g ann ''update'' (user g)
        \<and> json req = Some (JObj d) \<and> d \<noteq> [] \<and> map_of d ''permissions'' = Some p
        \<and> \<not> py_eq p (dict_get_default ann ''permissions'' (JObj []))
        \<and> \<not> authorize g ann ''admin'' (user g) \<longrightarrow>
      fst (update_annotation A g req i w) = Inr (failed_authz_response g ''permissions update'')"
    using update_annotation_admin_denied by blast
  have cr': "user g = None \<longrightarrow>
      fst (create_annotation A g req w) = Inr (failed_authz_response g ''create annotation'')"
    using create_annotation_denied by blast
  show ?thesis
    by (intro conjI rd rd' dl dl' up up' ad cr cr' ex gen context_changes_message)
qed

theorem unauthorized_message_witness:
  "fst (read_annotation sample_store (sample_g (Some sample_user) []) ''1'' sample_world) =
     failed_authz_response (sample_g (Some sample_user) []) []
   \<and> fst (delete_annotation sample_store (sample_g (Some sample_user) []) ''1'' sample_world) =
     failed_authz_response (sample_g (Some sample_user) []) []
   \<and> fst (update_annotation sample_store (sample_g (Some sample_user) [])
            \<lparr>json = Some (JObj [(''permissions'', JObj [(''read'', JList [JStr ''bob''])])]), args = []\<rparr>
            ''1'' sample_world) =
     Inr (failed_authz_response (sample_g (Some sample_user) []) [])
   \<and> fst (update_annotation sample_store (sample_g (Some sample_user) [''update''])
            \<lparr>json = Some (JObj [(''permissions'', JObj [(''read'', JList [JStr ''bob''])])]), args = []\<rparr>
            ''1'' sample_world) =
     Inr (failed_authz_response (sample_g (Some sample_user) [''update'']) ''permissions update'')
   \<and> fst (create_annotation sample_store (sample_g None [])
            \<lparr>json = Some (JObj [(''text'', JStr ''hi'')]), args = []\<rparr> sample_world) =
     Inr (failed_authz_response (sample_g None []) ''create annotation'')"
proof -
  let ?g = "sample_g (Some sample_user) []"
  let ?gu = "sample_g (Some sample_user) [''update'']"
  let ?ga = "sample_g None []"
  let ?p = "JObj [(''read'', JList [JStr ''bob''])]"
  let ?d = "[(''permissions'', ?p)]"
  let ?req = "\<lparr>json = Some (JObj ?d), args = []\<rparr>"
  let ?post = "\<lparr>json = Some (JObj [(''text'', JStr ''hi'')]), args = []\<rparr>"
  have ne: "sample_annotation \<noteq> []" by (simp add: sample_annotation_def)
  have nr: "\<not> authorize ?g sample_annotation ''read'' (user ?g)" by (simp add: sample_g_def)
  have nd: "\<not> authorize ?g sample_annotation ''delete'' (user ?g)" by (simp add: sample_g_def)
  have nu: "\<not> authorize ?g sample_annotation ''update'' (user ?g)" by (simp add: sample_g_def)
  have yu: "authorize ?gu sample_annotation ''update'' (user ?gu)" by (simp add: sample_g_def)
  have na: "\<not> authorize ?gu sample_annotation ''admin'' (user ?gu)" by (simp add: sample_g_def)
  have js: "json ?req = Some (JObj ?d)" by simp
  have dn: "?d \<noteq> []" by simp
  have pm: "map_of ?d ''permissions'' = Some ?p" by simp
  have df: "\<not> py_eq ?p (dict_get_default sample_annotation ''permissions'' (JObj []))"
    by (simp add: sample_annotation_def dict_get_default_def)
  have an: "user ?ga = None" by (simp add: sample_g_def)
  note t1 = unauthorized_message [of sample_store ?g "''1''" sample_world sample_annotation ?req ?d ?p "[]",
      THEN conjunct2]
  note t5 = t1 [THEN conjunct2, THEN conjunct2, THEN conjunct2, THEN conjunct2]
  note u6 = unauthorized_message [of sample_store ?gu "''1''" sample_world sample_annotation ?req ?d ?p "[]",
      THEN conjunct2, THEN conjunct2, THEN conjunct2, THEN conjunct2, THEN conjunct2,
      THEN conjunct2]
  note c8 = unauthorized_message [of sample_store ?ga "''1''" sample_world sample_annotation ?post ?d ?p "[]",
      THEN conjunct2, THEN conjunct2, THEN conjunct2, THEN conjunct2, THEN conjunct2,
      THEN conjunct2, THEN conjunct2, THEN conjunct2]
  from fetch_sample ne nr
  have a: "fst (read_annotation sample_store ?g ''1'' sample_world) = failed_authz_response ?g []"
    by (intro t1 [THEN conjunct1, rule_format] conjI)
  from fetch_sample ne nd
  have b: "fst (delete_annotation sample_store ?g ''1'' sample_world) = failed_authz_response ?g []"
    by (intro t1 [THEN conjunct2, THEN conjunct2, THEN conjunct1, rule_format] conjI)
  from fetch_sample ne nu
  have c: "fst (update_annotation sample_store ?g ?req ''1'' sample_world) =
      Inr (failed_authz_response ?g [])"
    by (intro t5 [THEN conjunct1, rule_format] conjI)
  from fetch_sample ne yu js dn pm df na
  have d: "fst (update_annotation sample_store ?gu ?req ''1'' sample_world) =
      Inr (failed_authz_response ?gu ''permissions update'')"
    by (intro u6 [THEN conjunct1, rule_format] conjI)
  from an
  have e: "fst (create_annotation sample_store ?ga ?post sample_world) =
      Inr (failed_authz_response ?ga ''create annotation'')"
    by (rule c8 [THEN conjunct1, rule_format])
  show ?thesis by (intro conjI a b c d e)
qed

text \<open>
  C6 as stated fails: the message of a refused \<open>read\<close> does not name the action.
\<close>

theorem unauthorized_read_names_no_action_counterexample:
  "fst (read_annotation sample_store (sample_g (Some sample_user) []) ''1'' sample_world) =
     \<lparr>status = 401,
      body = Some (JStr ''Cannot authorize request. Perhaps you're not logged in as a user with appropriate permissions on this annotation? (user=alice, consumer=c1)'')\<rparr>
   \<and> \<not> mentions ''read''
        ''Cannot authorize request. Perhaps you're not logged in as a user with appropriate permissions on this annotation? (user=alice, consumer=c1)''"
proof -
  have a: "fst (read_annotation sample_store (sample_g (Some sample_user) []) ''1'' sample_world) =
     \<lparr>status = 401,
      body = Some (JStr ''Cannot authorize request. Perhaps you're not logged in as a user with appropriate permissions on this annotation? (user=alice, consumer=c1)'')\<rparr>"
    using fetch_sample
    by (simp add: read_annotation_def do_fetch_def check_action_def Let_def sample_g_def
        sample_annotation_def failed_authz_response_def jsonify_def sample_user_def)
  have b: "\<not> mentions ''read''
        ''Cannot authorize request. Perhaps you're not logged in as a user with appropriate permissions on this annotation? (user=alice, consumer=c1)''"
    by simp
  from a b show ?thesis by (rule conjI)
qed

end
